theory Spec2Isabelle
  imports Complex_Main "HOL-Library.Option_ord"
begin

section \<open>The transaction table read by \<open>banking_analysis.py\<close>\<close>

subsection \<open>Doubles\<close>

text \<open>
  The amounts are written with two decimals by \<open>generate_sample_data.py\<close>, so Spark
  infers a double column and \<open>avg\<close> computes in binary64. A double is a rational, an
  infinity or NaN; the sign of zero is not kept. \<open>round64\<close> rounds a rational to the
  nearest double, ties to the even significand: 53 significant bits, exponents from -1022
  (below that the spacing stays \<open>2^-1074\<close>) to 1023, and infinity beyond.
\<close>

datatype double = Finite rat | PosInf | NegInf | NaN

function bit_length :: "int \<Rightarrow> int" where
  "bit_length n = (if n \<le> 0 then 0 else 1 + bit_length (n div 2))"
  by pat_completeness auto
termination
  by (relation "measure nat") auto

declare bit_length.simps [simp del]

function power2 :: "int \<Rightarrow> rat" where
  "power2 e =
     (if e \<le> 0 then 1
      else if even e then power2 (e div 2) * power2 (e div 2)
      else 2 * (power2 (e div 2) * power2 (e div 2)))"
  by pat_completeness auto
termination
  by (relation "measure nat") auto

declare power2.simps [simp del]

definition pow2 :: "int \<Rightarrow> rat" where
  "pow2 e = (if 0 \<le> e then power2 e else 1 / power2 (- e))"

text \<open>The exponent of a rational other than 0: \<open>2^e \<le> \<bar>x\<bar> < 2^(e+1)\<close>.\<close>

definition ilog2 :: "rat \<Rightarrow> int" where
  "ilog2 x =
     (if 1 \<le> \<bar>x\<bar> then bit_length \<lfloor>\<bar>x\<bar>\<rfloor> - 1
      else
        (let k = bit_length \<lfloor>1 / \<bar>x\<bar>\<rfloor> - 1
         in if pow2 k = 1 / \<bar>x\<bar> then - k else - k - 1))"

definition round_half_even :: "rat \<Rightarrow> int" where
  "round_half_even x =
     (let f = \<lfloor>x\<rfloor>; r = x - of_int f
      in if r < 1 / 2 then f else if 1 / 2 < r then f + 1 else if even f then f else f + 1)"

definition round64 :: "rat \<Rightarrow> double" where
  "round64 x =
     (if x = 0 then Finite 0
      else
        (let q = pow2 (max (ilog2 x) (- 1022) - 52);
             y = of_int (round_half_even (x / q)) * q
         in if 1024 \<le> ilog2 y then (if 0 < x then PosInf else NegInf) else Finite y))"

text \<open>Addition of doubles.\<close>

fun dadd :: "double \<Rightarrow> double \<Rightarrow> double" where
  "dadd (Finite a) (Finite b) = round64 (a + b)"
| "dadd NaN y = NaN"
| "dadd x NaN = NaN"
| "dadd PosInf NegInf = NaN"
| "dadd NegInf PosInf = NaN"
| "dadd PosInf y = PosInf"
| "dadd x PosInf = PosInf"
| "dadd NegInf y = NegInf"
| "dadd x NegInf = NegInf"

text \<open>Spark's division of doubles: null on a divisor 0.\<close>

fun ddiv :: "double \<Rightarrow> double \<Rightarrow> double option" where
  "ddiv x (Finite c) =
     (if c = 0 then None
      else Some (case x of
                   Finite a \<Rightarrow> round64 (a / c)
                 | PosInf \<Rightarrow> if 0 < c then PosInf else NegInf
                 | NegInf \<Rightarrow> if 0 < c then NegInf else PosInf
                 | NaN \<Rightarrow> NaN))"
| "ddiv (Finite a) PosInf = Some (Finite 0)"
| "ddiv (Finite a) NegInf = Some (Finite 0)"
| "ddiv x y = Some NaN"

text \<open>
  Spark's order of doubles, for \<open>orderBy\<close>: NaN is above every other value.
\<close>

fun double_le :: "double \<Rightarrow> double \<Rightarrow> bool" where
  "double_le x NaN = True"
| "double_le NaN y = False"
| "double_le NegInf y = True"
| "double_le x NegInf = False"
| "double_le x PosInf = True"
| "double_le PosInf y = False"
| "double_le (Finite a) (Finite b) = (a \<le> b)"

instantiation double :: linorder
begin

definition less_eq_double :: "double \<Rightarrow> double \<Rightarrow> bool" where
  "less_eq_double x y = double_le x y"

definition less_double :: "double \<Rightarrow> double \<Rightarrow> bool" where
  "less_double x y = (double_le x y \<and> \<not> double_le y x)"

instance
proof
  fix x y z :: double
  show "(x < y) = (x \<le> y \<and> \<not> y \<le> x)"
    by (simp add: less_double_def less_eq_double_def)
  show "x \<le> x"
    by (cases x) (simp_all add: less_eq_double_def)
  show "x \<le> y \<Longrightarrow> y \<le> z \<Longrightarrow> x \<le> z"
    by (cases x; cases y; cases z) (simp_all add: less_eq_double_def)
  show "x \<le> y \<Longrightarrow> y \<le> x \<Longrightarrow> x = y"
    by (cases x; cases y) (simp_all add: less_eq_double_def)
  show "x \<le> y \<or> y \<le> x"
    by (cases x; cases y) (auto simp: less_eq_double_def)
qed

end

subsection \<open>The table\<close>

text \<open>
  \<open>spark.read.csv(input_path, header=True, inferSchema=True)\<close> yields a table with the
  columns written by \<open>generate_sample_data.py\<close>. Every column is nullable: a null is
  \<open>None\<close>.
\<close>

record txn =
  user_id :: "string option"
  merchant_id :: "string option"
  transaction_amount :: "double option"
  status :: "string option"
  transaction_date :: "string option"

subsection \<open>The DataFrame operations used by the analysis\<close>

text \<open>
  A DataFrame is the list of its rows. Spark fixes no row order for the result of
  \<open>groupBy\<close>; the model lists the groups in the order \<open>remdups\<close> leaves the keys in.
\<close>

definition groupBy :: "('r \<Rightarrow> 'k) \<Rightarrow> 'r list \<Rightarrow> ('k \<times> 'r list) list" where
  "groupBy key df = map (\<lambda>k. (k, filter (\<lambda>r. key r = k) df)) (remdups (map key df))"

text \<open>\<open>count("*")\<close> counts the rows of a group.\<close>

definition count :: "'r list \<Rightarrow> int" where
  "count rows = int (length rows)"

fun non_null :: "'a option list \<Rightarrow> 'a list" where
  "non_null [] = []"
| "non_null (None # vs) = non_null vs"
| "non_null (Some v # vs) = v # non_null vs"

text \<open>
  \<open>avg\<close> skips nulls and is null on a group without a non-null value. Otherwise it adds
  the values to 0.0 one after the other, here in the order of the rows, and divides the sum
  by the count cast to double. Every step is rounded.
\<close>

definition avg :: "double option list \<Rightarrow> double option" where
  "avg vs = (let xs = non_null vs
             in if xs = [] then None
                else ddiv (foldl dadd (Finite 0) xs) (round64 (of_nat (length xs))))"

text \<open>
  \<open>left.join(right, key, "left")\<close>: every left row is kept; it is paired with each right row
  of the same non-null key, and with a null when there is none.
\<close>

definition left_join ::
  "('k option \<times> 'a) list \<Rightarrow> ('k option \<times> 'b) list \<Rightarrow> ('k option \<times> 'a \<times> 'b option) list" where
  "left_join l r = concat (map (\<lambda>(k, a).
     (case filter (\<lambda>(k', b). k \<noteq> None \<and> k' = k) r of
        [] \<Rightarrow> [(k, a, None)]
      | ms \<Rightarrow> map (\<lambda>(k', b). (k, a, Some b)) ms)) l)"

text \<open>\<open>fillna(0, subset=[c])\<close> on the joined column.\<close>

definition fillna :: "int \<Rightarrow> ('k \<times> 'a \<times> int option) list \<Rightarrow> ('k \<times> 'a \<times> int) list" where
  "fillna d df = map (\<lambda>(k, a, b). (k, a, (case b of None \<Rightarrow> d | Some v \<Rightarrow> v))) df"

text \<open>
  \<open>orderBy(col(c).desc())\<close>: non-increasing in the column, nulls last. Spark leaves the order
  of rows with equal keys open; the model keeps them in their order of arrival.
\<close>

definition orderBy_desc :: "('r \<Rightarrow> 'k::linorder) \<Rightarrow> 'r list \<Rightarrow> 'r list" where
  "orderBy_desc key df = rev (sort_key key (rev df))"

definition limit :: "nat \<Rightarrow> 'r list \<Rightarrow> 'r list" where
  "limit n df = take n df"

subsection \<open>The three views of \<open>main\<close>\<close>

text \<open>Step 2, lines 38-41: columns \<open>(user_id, avg_transaction)\<close>.\<close>

definition avg_txn :: "txn list \<Rightarrow> (string option \<times> double option) list" where
  "avg_txn df =
     map (\<lambda>(u, rows). (u, avg (map transaction_amount rows)))
       (groupBy user_id
          (filter (\<lambda>r. transaction_amount r \<noteq> None \<and> user_id r \<noteq> None) df))"

text \<open>Step 3, lines 45-47: columns \<open>(merchant_id, total_txns)\<close>.\<close>

definition total_df :: "txn list \<Rightarrow> (string option \<times> int) list" where
  "total_df df =
     map (\<lambda>(m, rows). (m, count rows))
       (groupBy merchant_id (filter (\<lambda>r. merchant_id r \<noteq> None) df))"

text \<open>
  Lines 49-52: columns \<open>(merchant_id, failed_txns)\<close>. A null status compares to null, which
  the filter drops.
\<close>

definition failed :: "txn list \<Rightarrow> (string option \<times> int) list" where
  "failed df =
     map (\<lambda>(m, rows). (m, count rows))
       (groupBy merchant_id
          (filter (\<lambda>r. status r = Some ''FAILED'' \<and> merchant_id r \<noteq> None) df))"

text \<open>
  The new column of lines 56-59. The quotient of the two counts is kept as the exact
  rational, which Spark rounds once to a double.
\<close>

definition rate :: "int \<Rightarrow> int \<Rightarrow> rat" where
  "rate total_txns failed_txns =
     (if total_txns > 0 then of_int failed_txns / of_int total_txns else 0)"

text \<open>Lines 54-59: columns \<open>(merchant_id, total_txns, failed_txns, failure_rate)\<close>.\<close>

definition failure_rate :: "txn list \<Rightarrow> (string option \<times> int \<times> int \<times> rat) list" where
  "failure_rate df =
     map (\<lambda>(m, t, f). (m, t, f, rate t f))
       (fillna 0 (left_join (total_df df) (failed df)))"

text \<open>Step 4, lines 63-67: columns \<open>(merchant_id, txn_count)\<close>.\<close>

definition top_merchants :: "txn list \<Rightarrow> (string option \<times> int) list" where
  "top_merchants df =
     limit 5 (orderBy_desc snd
       (map (\<lambda>(m, rows). (m, count rows))
          (groupBy merchant_id (filter (\<lambda>r. merchant_id r \<noteq> None) df))))"

text \<open>The rows of the scenario of the specification, section 8.\<close>

definition row :: "string \<Rightarrow> string \<Rightarrow> double \<Rightarrow> string \<Rightarrow> txn" where
  "row u m a s = \<lparr>user_id = Some u, merchant_id = Some m, transaction_amount = Some a,
                  status = Some s, transaction_date = None\<rparr>"

definition scenario :: "txn list" where
  "scenario =
     [row ''U1'' ''M1'' (Finite 100) ''SUCCESS'', row ''U1'' ''M1'' (Finite 50) ''FAILED'',
      row ''U2'' ''M1'' (Finite 200) ''SUCCESS'', row ''U2'' ''M2'' (Finite 300) ''SUCCESS'']"

subsection \<open>\<open>main\<close> of \<open>banking_analysis.py\<close>\<close>

text \<open>
  The exceptions of both programs. \<open>SystemExit c\<close> is \<open>sys.exit(c)\<close>.
\<close>

datatype py_error =
    FileNotFoundError string
  | ValueError string
  | OSError string
  | TypeError
  | EOFError
  | SystemExit int

text \<open>
  What \<open>main\<close> does to the outside is kept as a trace: a table displayed by \<open>show\<close>, a
  directory created, a file written by \<open>to_csv\<close>, a file operation that raised, the summary
  lines, the message of the inner \<open>except\<close>, and \<open>spark.stop()\<close> of the \<open>finally\<close>.
\<close>

datatype view =
    AvgTxn "(string option \<times> double option) list"
  | FailureRate "(string option \<times> int \<times> int \<times> rat) list"
  | TopMerchants "(string option \<times> int) list"

datatype event =
    Show "view"
  | Makedirs string
  | ToCsv string "view"
  | Failed string
  | Summary nat nat rat rat
  | SaveError py_error
  | SparkStop

text \<open>
  The file system answers each operation on a path: \<open>fs p\<close> holds when the operation on
  \<open>p\<close> succeeds. Paths are written relative to \<open>script_dir\<close>.
\<close>

definition results_dir :: string where
  "results_dir = ''analysis_results''"

definition avg_csv :: string where
  "avg_csv = ''analysis_results/avg_transaction_per_user.csv''"

definition failure_csv :: string where
  "failure_csv = ''analysis_results/failure_rate_per_merchant.csv''"

definition top_csv :: string where
  "top_csv = ''analysis_results/top_5_merchants.csv''"

text \<open>A statement of a \<open>try\<close> block runs only when the ones before it did not raise.\<close>

definition seq ::
  "(event list \<Rightarrow> event list \<times> (py_error + unit)) \<Rightarrow>
   (event list \<Rightarrow> event list \<times> (py_error + unit)) \<Rightarrow>
   event list \<Rightarrow> event list \<times> (py_error + unit)" where
  "seq stmt rest tr =
     (case stmt tr of
        (tr', Inl e) \<Rightarrow> (tr', Inl e)
      | (tr', Inr _) \<Rightarrow> rest tr')"

definition makedirs :: "(string \<Rightarrow> bool) \<Rightarrow> string \<Rightarrow> event list \<Rightarrow> event list \<times> (py_error + unit)" where
  "makedirs fs p tr =
     (if fs p then (tr @ [Makedirs p], Inr ()) else (tr @ [Failed p], Inl (OSError p)))"

definition to_csv ::
  "(string \<Rightarrow> bool) \<Rightarrow> string \<Rightarrow> view \<Rightarrow> event list \<Rightarrow> event list \<times> (py_error + unit)" where
  "to_csv fs p v tr =
     (if fs p then (tr @ [ToCsv p v], Inr ()) else (tr @ [Failed p], Inl (OSError p)))"

text \<open>
  Lines 113-117. The maximum and the mean of the \<open>failure_rate\<close> column are null on a view
  without rows, and formatting a null with \<open>:.2%\<close> raises.
\<close>

definition summary ::
  "(string option \<times> double option) list \<Rightarrow> (string option \<times> int \<times> int \<times> rat) list \<Rightarrow>
   event list \<Rightarrow> event list \<times> (py_error + unit)" where
  "summary avg_v fr_v tr =
     (case map (\<lambda>(m, t, f, r). r) fr_v of
        [] \<Rightarrow> (tr, Inl TypeError)
      | r # rs \<Rightarrow>
          (tr @ [Summary (length avg_v) (length fr_v) (fold max rs r)
                   (sum_list (r # rs) / of_nat (length (r # rs)))], Inr ()))"

text \<open>The body of the inner \<open>try\<close>, lines 89-117.\<close>

definition save_results ::
  "(string \<Rightarrow> bool) \<Rightarrow> (string option \<times> double option) list \<Rightarrow>
   (string option \<times> int \<times> int \<times> rat) list \<Rightarrow> (string option \<times> int) list \<Rightarrow>
   event list \<Rightarrow> event list \<times> (py_error + unit)" where
  "save_results fs avg_v fr_v top_v =
     seq (makedirs fs results_dir)
    (seq (to_csv fs avg_csv (AvgTxn avg_v))
    (seq (to_csv fs failure_csv (FailureRate fr_v))
    (seq (to_csv fs top_csv (TopMerchants top_v))
         (summary avg_v fr_v))))"

text \<open>
  \<open>main\<close>, from the existence check of line 21 on. The input is the loaded table, or
  \<open>None\<close> when \<open>transactions.csv\<close> does not exist. The result is the trace and how
  \<open>main\<close> ends: \<open>Inr ()\<close> is a normal return, \<open>Inl e\<close> the exception re-raised by the outer
  handler.
\<close>

definition main :: "txn list option \<Rightarrow> (string \<Rightarrow> bool) \<Rightarrow> event list \<times> (py_error + unit)" where
  "main input fs =
     (case input of
        None \<Rightarrow> ([SparkStop], Inl (FileNotFoundError ''transactions.csv''))
      | Some df \<Rightarrow>
          if count df = 0
          then ([SparkStop], Inl (ValueError ''No data found in the input file''))
          else
            (case save_results fs (avg_txn df) (failure_rate df) (top_merchants df)
                    [Show (TopMerchants (top_merchants df)),
                     Show (AvgTxn (limit 10 (orderBy_desc snd (avg_txn df)))),
                     Show (FailureRate
                       (limit 10 (orderBy_desc (\<lambda>(m, t, f, r). r) (failure_rate df))))] of
               (tr, Inl save_error) \<Rightarrow> (tr @ [SaveError save_error, SparkStop], Inr ())
             | (tr, Inr _) \<Rightarrow> (tr @ [SparkStop], Inr ())))"

text \<open>A file was attempted when the trace holds its write or its failure.\<close>

fun touches :: "string \<Rightarrow> event \<Rightarrow> bool" where
  "touches p (ToCsv q v) = (q = p)"
| "touches p (Failed q) = (q = p)"
| "touches p (Makedirs q) = (q = p)"
| "touches p _ = False"

definition attempted :: "string \<Rightarrow> event list \<Rightarrow> bool" where
  "attempted p tr = list_ex (touches p) tr"

text \<open>A disk on which every operation succeeds but the one on \<open>p\<close>.\<close>

definition rejects :: "string \<Rightarrow> string \<Rightarrow> bool" where
  "rejects p q = (q \<noteq> p)"

section \<open>The generator, \<open>transaction_generator.py\<close>\<close>

text \<open>
  One generated transaction, the dict of lines 38-51. The key \<open>status\<close> is the field
  \<open>txn_status\<close> here, the name \<open>status\<close> being a column of the table above.
\<close>

record transaction =
  transaction_id :: string
  customer_id :: string
  customer_name :: string
  timestamp :: string
  transaction_type :: string
  amount :: rat
  location :: string
  merchant_name :: string
  account_number :: string
  txn_status :: string
  currency :: string
  description :: string

text \<open>
  The values that \<open>random\<close> and \<open>fake\<close> hand to one call of \<open>generate_transaction\<close>.
\<close>

record drawn =
  d_customer_id :: string
  d_customer_name :: string
  d_timestamp :: string
  d_transaction_type :: string
  d_amount :: rat
  d_location :: string
  d_merchant_name :: string
  d_account_number :: string
  d_status :: string
  d_description :: string

text \<open>
  Lines 25-31. The results of the successive calls of \<open>uuid.uuid4()\<close> are a list; the loop
  takes them in order until one is new. When the list is used up the loop has not returned:
  the result is \<open>None\<close>. Otherwise the identifier, the updated \<open>used_transaction_ids\<close>
  and the calls still to come are returned.
\<close>

fun generate_unique_transaction_id ::
  "string set \<Rightarrow> string list \<Rightarrow> (string \<times> string set \<times> string list) option" where
  "generate_unique_transaction_id used [] = None"
| "generate_unique_transaction_id used (u # us) =
     (if u \<notin> used then Some (u, insert u used, us)
      else generate_unique_transaction_id used us)"

definition generate_transaction ::
  "drawn \<Rightarrow> string set \<Rightarrow> string list \<Rightarrow> (transaction \<times> string set \<times> string list) option" where
  "generate_transaction d used us =
     (case generate_unique_transaction_id used us of
        None \<Rightarrow> None
      | Some (tid, used', us') \<Rightarrow>
          Some (\<lparr>transaction_id = tid,
                 customer_id = d_customer_id d,
                 customer_name = d_customer_name d,
                 timestamp = d_timestamp d,
                 transaction_type = d_transaction_type d,
                 amount = d_amount d,
                 location = d_location d,
                 merchant_name = d_merchant_name d,
                 account_number = d_account_number d,
                 txn_status = d_status d,
                 currency = ''INR'',
                 description = d_description d\<rparr>, used', us'))"

text \<open>
  Lines 54-67: the loop over \<open>range(n)\<close>, which runs \<open>nat n\<close> times, so not at all for
  \<open>n \<le> 0\<close>. \<open>rnd i\<close> is what the random sources give to iteration \<open>i\<close>. The progress
  line divides by \<open>n // 10\<close> only under \<open>n > 1000\<close> and cannot raise.
\<close>

fun generate_loop ::
  "nat \<Rightarrow> nat \<Rightarrow> (nat \<Rightarrow> drawn) \<Rightarrow> string set \<Rightarrow> string list \<Rightarrow> transaction list \<Rightarrow>
   (transaction list \<times> string set \<times> string list) option" where
  "generate_loop 0 i rnd used us transactions = Some (transactions, used, us)"
| "generate_loop (Suc k) i rnd used us transactions =
     (case generate_transaction (rnd i) used us of
        None \<Rightarrow> None
      | Some (t, used', us') \<Rightarrow> generate_loop k (Suc i) rnd used' us' (transactions @ [t]))"

definition generate_transactions ::
  "int \<Rightarrow> (nat \<Rightarrow> drawn) \<Rightarrow> string set \<Rightarrow> string list \<Rightarrow>
   (transaction list \<times> string set \<times> string list) option" where
  "generate_transactions n rnd used us = generate_loop (nat n) 0 rnd used us []"

subsection \<open>\<open>validate_input\<close>\<close>

text \<open>
  What the console gives to a call of \<open>input\<close>: a line, or Ctrl-C. At the end of the
  input \<open>input\<close> raises \<open>EOFError\<close>, which \<open>validate_input\<close> does not catch.
\<close>

datatype console = Line string | Interrupt

definition isspace :: "char \<Rightarrow> bool" where
  "isspace c = (c \<in> set [CHR '' '', CHR 0x09, CHR 0x0A, CHR 0x0B, CHR 0x0C, CHR 0x0D,
                           CHR 0x1C, CHR 0x1D, CHR 0x1E, CHR 0x1F])"

text \<open>\<open>str.strip\<close> and \<open>str.lower\<close> on ASCII text.\<close>

definition strip :: "string \<Rightarrow> string" where
  "strip s = rev (dropWhile isspace (rev (dropWhile isspace s)))"

definition lower :: "string \<Rightarrow> string" where
  "lower s = map (\<lambda>c. if 65 \<le> (of_char c :: nat) \<and> (of_char c :: nat) \<le> 90
                       then char_of (of_char c + 32 :: nat) else c) s"

text \<open>
  Lines 69-95. \<open>int_of\<close> stands for the builtin \<open>int\<close> on the stripped line, \<open>None\<close>
  being its \<open>ValueError\<close>. Every rejected line prints a message and the loop asks again.
\<close>

fun validate_input :: "(string \<Rightarrow> int option) \<Rightarrow> console list \<Rightarrow> py_error + int" where
  "validate_input int_of [] = Inl EOFError"
| "validate_input int_of (Interrupt # rest) = Inl (SystemExit 0)"
| "validate_input int_of (Line l # rest) =
     (if strip l = [] then validate_input int_of rest
      else
        (case int_of (strip l) of
           None \<Rightarrow> validate_input int_of rest
         | Some n \<Rightarrow>
             if n \<le> 0 then validate_input int_of rest
             else if n > 1000000 then
               (case rest of
                  [] \<Rightarrow> Inl EOFError
                | Interrupt # rest' \<Rightarrow> Inl (SystemExit 0)
                | Line confirm # rest' \<Rightarrow>
                    if lower (strip confirm) \<notin> set [''y'', ''yes'']
                    then validate_input int_of rest'
                    else Inr n)
             else Inr n))"

text \<open>
  A reading of \<open>int\<close> on an optional sign followed by ASCII digits, for the concrete inputs
  below.
\<close>

definition digits :: "string \<Rightarrow> int option" where
  "digits ds =
     (if ds \<noteq> [] \<and> list_all (\<lambda>c. 48 \<le> (of_char c :: nat) \<and> (of_char c :: nat) \<le> 57) ds
      then Some (foldl (\<lambda>a c. 10 * a + (int (of_char c) - 48)) 0 ds)
      else None)"

fun decimal :: "string \<Rightarrow> int option" where
  "decimal [] = None"
| "decimal (c # cs) =
     (if c = CHR ''-'' then map_option uminus (digits cs)
      else if c = CHR ''+'' then digits cs
      else digits (c # cs))"

subsection \<open>\<open>main\<close> of the generator\<close>

datatype file_event =
    MkDir string
  | WriteCsv string "transaction list"
  | WriteJson string "transaction list"
  | Raised string

definition output_dir :: string where
  "output_dir = ''../sample_output''"

definition csv_filename :: string where
  "csv_filename = ''../sample_output/transactions.csv''"

definition json_filename :: string where
  "json_filename = ''../sample_output/transactions.json''"

text \<open>
  Lines 97-105, for a file below \<open>output_dir\<close>. \<open>dir_exists\<close> is \<open>os.path.exists\<close> of the
  directory.
\<close>

definition ensure_directory_exists ::
  "(string \<Rightarrow> bool) \<Rightarrow> bool \<Rightarrow> file_event list \<Rightarrow> file_event list \<times> (py_error + unit)" where
  "ensure_directory_exists fs dir_exists tr =
     (if \<not> dir_exists
      then (if fs output_dir then (tr @ [MkDir output_dir], Inr ())
            else (tr @ [Raised output_dir], Inl (OSError output_dir)))
      else (tr, Inr ()))"

text \<open>Lines 107-127. Every exception is printed and raised again.\<close>

definition save_to_csv ::
  "(string \<Rightarrow> bool) \<Rightarrow> bool \<Rightarrow> transaction list \<Rightarrow> string \<Rightarrow> file_event list \<Rightarrow>
   file_event list \<times> (py_error + unit)" where
  "save_to_csv fs dir_exists data filename tr =
     (case ensure_directory_exists fs dir_exists tr of
        (tr', Inl e) \<Rightarrow> (tr', Inl e)
      | (tr', Inr _) \<Rightarrow>
          if \<not> fs filename then (tr' @ [Raised filename], Inl (OSError filename))
          else if data = [] then (tr' @ [WriteCsv filename []], Inl (ValueError ''No data to save''))
          else (tr' @ [WriteCsv filename data], Inr ()))"

text \<open>Lines 129-144.\<close>

definition save_to_json ::
  "(string \<Rightarrow> bool) \<Rightarrow> bool \<Rightarrow> transaction list \<Rightarrow> string \<Rightarrow> file_event list \<Rightarrow>
   file_event list \<times> (py_error + unit)" where
  "save_to_json fs dir_exists data filename tr =
     (case ensure_directory_exists fs dir_exists tr of
        (tr', Inl e) \<Rightarrow> (tr', Inl e)
      | (tr', Inr _) \<Rightarrow>
          if \<not> fs filename then (tr' @ [Raised filename], Inl (OSError filename))
          else (tr' @ [WriteJson filename data], Inr ()))"

text \<open>
  Lines 158-206. The result is \<open>None\<close> when the generation does not return; otherwise the
  file operations made and how the process ends: \<open>Inr ()\<close> is a normal return,
  \<open>Inl (SystemExit c)\<close> the exit with status \<open>c\<close>. \<open>sys.exit(0)\<close> of \<open>validate_input\<close>
  passes the handler for \<open>Exception\<close>; every other exception is printed and becomes
  \<open>sys.exit(1)\<close>. After \<open>save_to_csv\<close> has returned the directory exists.
\<close>

definition generator_main ::
  "(string \<Rightarrow> int option) \<Rightarrow> console list \<Rightarrow> (nat \<Rightarrow> drawn) \<Rightarrow> string list \<Rightarrow>
   (string \<Rightarrow> bool) \<Rightarrow> bool \<Rightarrow> (file_event list \<times> (py_error + unit)) option" where
  "generator_main int_of inputs rnd us fs dir_exists =
     (case validate_input int_of inputs of
        Inl (SystemExit c) \<Rightarrow> Some ([], Inl (SystemExit c))
      | Inl e \<Rightarrow> Some ([], Inl (SystemExit 1))
      | Inr n \<Rightarrow>
          (case generate_transactions n rnd {} us of
             None \<Rightarrow> None
           | Some (transactions, used, us') \<Rightarrow>
               if transactions = [] then Some ([], Inr ())
               else
                 (case save_to_csv fs dir_exists transactions csv_filename [] of
                    (tr, Inl e) \<Rightarrow> Some (tr, Inl (SystemExit 1))
                  | (tr, Inr _) \<Rightarrow>
                      (case save_to_json fs True transactions json_filename tr of
                         (tr', Inl e) \<Rightarrow> Some (tr', Inl (SystemExit 1))
                       | (tr', Inr _) \<Rightarrow> Some (tr', Inr ())))))"

text \<open>The same values for every iteration, for the concrete runs below.\<close>

definition plain :: "nat \<Rightarrow> drawn" where
  "plain i = \<lparr>d_customer_id = ''C10000'', d_customer_name = ''A'', d_timestamp = ''T'',
              d_transaction_type = ''POS'', d_amount = 50, d_location = ''Mumbai'',
              d_merchant_name = ''B'', d_account_number = ''ACC100000000'',
              d_status = ''SUCCESS'', d_description = ''D''\<rparr>"

text \<open>
  For the concrete runs below: a row without a merchant, a row with nothing but a
  merchant, and the table of the two amounts 0.1 and 0.2.
\<close>

definition orphan :: txn where
  "orphan = \<lparr>user_id = Some ''U1'', merchant_id = None, transaction_amount = Some (Finite 30),
             status = Some ''SUCCESS'', transaction_date = None\<rparr>"

definition nameless :: txn where
  "nameless = \<lparr>user_id = None, merchant_id = Some ''M2'', transaction_amount = None,
               status = Some ''FAILED'', transaction_date = None\<rparr>"


text \<open>
  The rows of a merchant in a table and its failed rows, whatever their other columns
  hold.
\<close>

definition rows_of :: "string \<Rightarrow> txn list \<Rightarrow> int" where
  "rows_of m df = int (length (filter (\<lambda>x. merchant_id x = Some m) df))"

definition failed_of :: "string \<Rightarrow> txn list \<Rightarrow> int" where
  "failed_of m df =
     int (length (filter (\<lambda>x. status x = Some ''FAILED'' \<and> merchant_id x = Some m) df))"



text \<open>A disk on which every operation succeeds.\<close>

definition accepts :: "string \<Rightarrow> bool" where
  "accepts p = True"

section \<open>Facts about the DataFrame operations\<close>

lemma groupBy_count_filter:
  "map (\<lambda>(k, rows). (k, count rows)) (groupBy key (filter P df)) =
   map (\<lambda>k. (k, int (length (filter (\<lambda>r. P r \<and> key r = k) df)))) (remdups (map key (filter P df)))"
  by (simp add: groupBy_def count_def conj_commute)

lemma total_eq:
  "total_df df = map (\<lambda>m. (m, int (length (filter (\<lambda>r. merchant_id r = m) df))))
                (remdups (map merchant_id (filter (\<lambda>r. merchant_id r \<noteq> None) df)))"
  unfolding total_df_def groupBy_count_filter
  by (rule map_cong) (auto intro!: arg_cong[where f=length] filter_cong)

lemma failed_eq:
  "failed df = map (\<lambda>m. (m, int (length (filter (\<lambda>r. status r = Some ''FAILED'' \<and> merchant_id r = m) df))))
                (remdups (map merchant_id (filter (\<lambda>r. status r = Some ''FAILED'' \<and> merchant_id r \<noteq> None) df)))"
  unfolding failed_def groupBy_count_filter
  by (rule map_cong) (auto intro!: arg_cong[where f=length] filter_cong)

lemma filter_keyed:
  "distinct ks \<Longrightarrow>
   filter (\<lambda>(k', b). k' = k) (map (\<lambda>k. (k, g k)) ks) = (if k \<in> set ks then [(k, g k)] else [])"
  by (induction ks) auto

lemma left_join_keyed:
  assumes "distinct ks" "None \<notin> set ls"
  shows "left_join (map (\<lambda>k. (k, f k)) ls) (map (\<lambda>k. (k, g k)) ks) =
         map (\<lambda>k. (k, f k, if k \<in> set ks then Some (g k) else None)) ls"
proof -
  have "\<And>k. k \<in> set ls \<Longrightarrow>
      (case filter (\<lambda>(k', b). k \<noteq> None \<and> k' = k) (map (\<lambda>k. (k, g k)) ks) of
        [] \<Rightarrow> [(k, f k, None)]
      | ms \<Rightarrow> map (\<lambda>(k', b). (k, f k, Some b)) ms) = [(k, f k, if k \<in> set ks then Some (g k) else None)]"
  proof -
    fix k assume "k \<in> set ls"
    then have "k \<noteq> None" using assms(2) by metis
    then show "(case filter (\<lambda>(k', b). k \<noteq> None \<and> k' = k) (map (\<lambda>k. (k, g k)) ks) of
        [] \<Rightarrow> [(k, f k, None)]
      | ms \<Rightarrow> map (\<lambda>(k', b). (k, f k, Some b)) ms) = [(k, f k, if k \<in> set ks then Some (g k) else None)]"
      using filter_keyed[OF assms(1), of k g] by simp
  qed
  then show ?thesis
    unfolding left_join_def by (induction ls) auto
qed

lemma failure_rate_eq:
  "failure_rate df =
     map (\<lambda>m. (m, int (length (filter (\<lambda>r. merchant_id r = m) df)),
                int (length (filter (\<lambda>r. status r = Some ''FAILED'' \<and> merchant_id r = m) df)),
                rate (int (length (filter (\<lambda>r. merchant_id r = m) df)))
                     (int (length (filter (\<lambda>r. status r = Some ''FAILED'' \<and> merchant_id r = m) df)))))
       (remdups (map merchant_id (filter (\<lambda>r. merchant_id r \<noteq> None) df)))"
proof -
  let ?ls = "remdups (map merchant_id (filter (\<lambda>r. merchant_id r \<noteq> None) df))"
  let ?ks = "remdups (map merchant_id (filter (\<lambda>r. status r = Some ''FAILED'' \<and> merchant_id r \<noteq> None) df))"
  let ?F = "\<lambda>m. int (length (filter (\<lambda>r. status r = Some ''FAILED'' \<and> merchant_id r = m) df))"
  have nn: "None \<notin> set ?ls" by auto
  have zero: "?F m = 0" if "m \<in> set ?ls" "m \<notin> set ?ks" for m
  proof -
    have "filter (\<lambda>r. status r = Some ''FAILED'' \<and> merchant_id r = m) df = []"
      using that by (auto simp: filter_empty_conv image_iff)
    then show ?thesis by simp
  qed
  have "fillna 0 (left_join (total_df df) (failed df)) =
        map (\<lambda>m. (m, int (length (filter (\<lambda>r. merchant_id r = m) df)), ?F m)) ?ls"
    unfolding total_eq failed_eq left_join_keyed[OF distinct_remdups nn] fillna_def
    using zero by (auto simp del: set_remdups)
  then show ?thesis
    unfolding failure_rate_def by simp
qed

lemma merchant_keys_set:
  "set (remdups (map merchant_id (filter (\<lambda>r. merchant_id r \<noteq> None) df))) =
   {Some m | m. \<exists>r\<in>set df. merchant_id r = Some m}"
  by (force simp: image_iff)

lemma rate_bounds: "0 \<le> f \<Longrightarrow> f \<le> t \<Longrightarrow> 0 \<le> rate t f \<and> rate t f \<le> 1"
  by (simp add: rate_def)

lemma length_filter_conj_le:
  "length (filter (\<lambda>r. P r \<and> Q r) xs) \<le> length (filter Q xs)"
  by (induction xs) auto

lemma int_sum_list: "int (sum_list (map f xs)) = (\<Sum>x\<leftarrow>xs. int (f x))"
  by (induction xs) auto

lemma keys_count_sum:
  "(\<Sum>k\<leftarrow>remdups (map key xs). int (length (filter (\<lambda>r. key r = k) xs))) = int (length xs)"
proof -
  have "(\<Sum>k\<leftarrow>remdups (map key xs). length (filter (\<lambda>r. key r = k) xs)) =
        (\<Sum>k\<in>set (map key xs). count_list (map key xs) k)"
    by (simp add: sum_list_distinct_conv_sum_set count_list_eq_length_filter length_filter_map comp_def eq_commute)
  also have "\<dots> = length (map key xs)"
    by (rule sum_count_set) auto
  finally have "(\<Sum>k\<leftarrow>remdups (map key xs). length (filter (\<lambda>r. key r = k) xs)) = length xs"
    by simp
  then have "int (\<Sum>k\<leftarrow>remdups (map key xs). length (filter (\<lambda>r. key r = k) xs)) = int (length xs)"
    by simp
  then show ?thesis by (simp add: int_sum_list)
qed

section \<open>The failure-rate view\<close>

text \<open>
  C1. The failure-rate view has one row for each distinct non-null \<open>merchant_id\<close> of the
  table. In that row \<open>total_txns\<close> is the number of the merchant's rows,
  \<open>failed_txns\<close> the number of its rows whose status is \<open>FAILED\<close> (so 0 when there is
  none), and \<open>failure_rate\<close> is their quotient, with a positive divisor. On the four rows
  of the scenario the view holds M1 with rate 1/3 and M2 with rate 0. Nothing here needs the
  table to be non-empty.
\<close>

theorem failure_rate_view:
  "distinct (map fst (failure_rate df)) \<and>
   set (map fst (failure_rate df)) = {Some m | m. \<exists>r\<in>set df. merchant_id r = Some m} \<and>
   (\<forall>(m, total_txns, failed_txns, fr) \<in> set (failure_rate df).
      total_txns = int (length (filter (\<lambda>r. merchant_id r = m) df)) \<and>
      failed_txns = int (length (filter (\<lambda>r. merchant_id r = m \<and> status r = Some ''FAILED'') df)) \<and>
      0 < total_txns \<and>
      fr = of_int failed_txns / of_int total_txns) \<and>
   set (failure_rate scenario) = {(Some ''M1'', 3, 1, 1 / 3), (Some ''M2'', 1, 0, 0)}"
proof (intro conjI)
  show "distinct (map fst (failure_rate df))"
    by (simp add: failure_rate_eq comp_def)
  show "set (map fst (failure_rate df)) = {Some m | m. \<exists>r\<in>set df. merchant_id r = Some m}"
    unfolding merchant_keys_set[symmetric] by (simp add: failure_rate_eq comp_def)
  show "\<forall>(m, total_txns, failed_txns, fr) \<in> set (failure_rate df).
      total_txns = int (length (filter (\<lambda>r. merchant_id r = m) df)) \<and>
      failed_txns = int (length (filter (\<lambda>r. merchant_id r = m \<and> status r = Some ''FAILED'') df)) \<and>
      0 < total_txns \<and>
      fr = of_int failed_txns / of_int total_txns"
    by (auto simp: failure_rate_eq rate_def conj_commute filter_empty_conv)
  show "set (failure_rate scenario) = {(Some ''M1'', 3, 1, 1 / 3), (Some ''M2'', 1, 0, 0)}"
    by (simp add: failure_rate_def scenario_def row_def total_df_def failed_def groupBy_def
        fillna_def left_join_def count_def rate_def insert_commute)
qed

text \<open>The rows of the theorem are there: merchant M1 of the scenario.\<close>

theorem failure_rate_view_witness:
  "(Some ''M1'', 3, 1, 1 / 3) \<in> set (failure_rate scenario) \<and>
   (3::int) = int (length (filter (\<lambda>r. merchant_id r = Some ''M1'') scenario)) \<and>
   (1::int) = int (length (filter (\<lambda>r. merchant_id r = Some ''M1'' \<and> status r = Some ''FAILED'') scenario))"
proof -
  have mem: "(Some ''M1'', 3, 1, 1 / 3) \<in> set (failure_rate scenario)"
    using failure_rate_view [of scenario] by simp
  with failure_rate_view [of scenario] show ?thesis by fastforce
qed

lemma failure_rate_keys:
  "set (map fst (failure_rate df)) = {Some m | m. \<exists>r\<in>set df. merchant_id r = Some m}"
  unfolding merchant_keys_set[symmetric] by (simp add: failure_rate_eq comp_def)

lemma failure_rate_keys_distinct: "distinct (map fst (failure_rate df))"
  by (simp add: failure_rate_eq comp_def)

lemma distinct_filter_eq_one:
  "distinct xs \<Longrightarrow> x \<in> set xs \<Longrightarrow> length (filter (\<lambda>k. k = x) xs) = 1"
  by (induction xs) (auto simp: filter_empty_conv)

text \<open>
  C4. In every row of the failure-rate view the rate lies between 0 and 1 and is 0 when
  \<open>failed_txns\<close> is 0. The rate is the guarded quotient \<open>rate\<close>: the division is made
  only for \<open>total_txns > 0\<close> and the other branch gives 0. Every row has
  \<open>total_txns > 0\<close>, so that branch is never taken.
\<close>

theorem failure_rate_bounds:
  "(\<forall>(m, total_txns, failed_txns, fr) \<in> set (failure_rate df).
      0 \<le> fr \<and> fr \<le> 1 \<and> (failed_txns = 0 \<longrightarrow> fr = 0) \<and>
      fr = rate total_txns failed_txns \<and> 0 < total_txns) \<and>
   (\<forall>t f. rate t f = (if t > 0 then of_int f / of_int t else 0)) \<and>
   (\<forall>f. rate 0 f = 0)"
proof (intro conjI)
  show "\<forall>(m, total_txns, failed_txns, fr) \<in> set (failure_rate df).
      0 \<le> fr \<and> fr \<le> 1 \<and> (failed_txns = 0 \<longrightarrow> fr = 0) \<and>
      fr = rate total_txns failed_txns \<and> 0 < total_txns"
  proof -
    have "0 \<le> rate (int (length (filter (\<lambda>r. merchant_id r = m) df)))
                 (int (length (filter (\<lambda>r. status r = Some ''FAILED'' \<and> merchant_id r = m) df))) \<and>
          rate (int (length (filter (\<lambda>r. merchant_id r = m) df)))
                 (int (length (filter (\<lambda>r. status r = Some ''FAILED'' \<and> merchant_id r = m) df))) \<le> 1" for m
      by (rule rate_bounds) (simp_all add: length_filter_conj_le)
    moreover have "rate t 0 = 0" for t by (simp add: rate_def)
    ultimately show ?thesis
      by (auto simp: failure_rate_eq filter_empty_conv)
  qed
  show "\<forall>t f. rate t f = (if t > 0 then of_int f / of_int t else 0)"
    by (simp add: rate_def)
  show "\<forall>f. rate 0 f = 0"
    by (simp add: rate_def)
qed

text \<open>Merchant M2 of the scenario has no failed row and the rate 0.\<close>

theorem failure_rate_bounds_witness:
  "(Some ''M2'', 1, 0, 0) \<in> set (failure_rate scenario) \<and> rate 1 0 = 0 \<and> (0::rat) \<le> 1"
proof -
  have mem: "(Some ''M2'', 1, 0, 0) \<in> set (failure_rate scenario)"
    by (simp add: failure_rate_def scenario_def row_def total_df_def failed_def groupBy_def
        fillna_def left_join_def count_def rate_def)
  with failure_rate_bounds [of scenario] show ?thesis by fastforce
qed

text \<open>
  C10. Each non-null \<open>merchant_id\<close> of the table has exactly one row in the failure-rate
  view; every row has \<open>0 \<le> failed_txns \<le> total_txns\<close> and \<open>total_txns \<ge> 1\<close>; the
  \<open>total_txns\<close> of all rows add up to the number of table rows with a merchant.
\<close>

theorem failure_rate_invariant:
  "(\<forall>m. (\<exists>r\<in>set df. merchant_id r = Some m) \<longrightarrow>
        length (filter (\<lambda>v. fst v = Some m) (failure_rate df)) = 1) \<and>
   (\<forall>(m, total_txns, failed_txns, fr) \<in> set (failure_rate df).
      0 \<le> failed_txns \<and> failed_txns \<le> total_txns \<and> 1 \<le> total_txns) \<and>
   (\<Sum>(m, total_txns, failed_txns, fr) \<leftarrow> failure_rate df. total_txns) =
      int (length (filter (\<lambda>r. merchant_id r \<noteq> None) df))"
proof (intro conjI allI impI)
  fix m assume "\<exists>r\<in>set df. merchant_id r = Some m"
  then have "Some m \<in> set (map fst (failure_rate df))"
    unfolding failure_rate_keys by blast
  then have "length (filter (\<lambda>k. k = Some m) (map fst (failure_rate df))) = 1"
    by (rule distinct_filter_eq_one [OF failure_rate_keys_distinct])
  then show "length (filter (\<lambda>v. fst v = Some m) (failure_rate df)) = 1"
    by (simp add: length_filter_map comp_def)
next
  show "\<forall>(m, total_txns, failed_txns, fr) \<in> set (failure_rate df).
      0 \<le> failed_txns \<and> failed_txns \<le> total_txns \<and> 1 \<le> total_txns"
    by (auto simp: failure_rate_eq length_filter_conj_le filter_empty_conv Suc_le_eq)
next
  let ?df' = "filter (\<lambda>r. merchant_id r \<noteq> None) df"
  have "(\<Sum>(m, total_txns, failed_txns, fr) \<leftarrow> failure_rate df. total_txns) =
        (\<Sum>k\<leftarrow>remdups (map merchant_id ?df'). int (length (filter (\<lambda>r. merchant_id r = k) df)))"
    by (simp add: failure_rate_eq comp_def)
  also have "\<dots> = (\<Sum>k\<leftarrow>remdups (map merchant_id ?df'). int (length (filter (\<lambda>r. merchant_id r = k) ?df')))"
    by (rule arg_cong[where f=sum_list], rule map_cong)
       (auto intro!: arg_cong[where f=length] filter_cong)
  also have "\<dots> = int (length ?df')"
    by (rule keys_count_sum)
  finally show "(\<Sum>(m, total_txns, failed_txns, fr) \<leftarrow> failure_rate df. total_txns) = int (length ?df')" .
qed

text \<open>Merchant M1 of the scenario: one row, one failed transaction of three.\<close>

theorem failure_rate_invariant_witness:
  "(\<exists>r\<in>set scenario. merchant_id r = Some ''M1'') \<and>
   length (filter (\<lambda>v. fst v = Some ''M1'') (failure_rate scenario)) = 1 \<and>
   (Some ''M1'', 3, 1, 1 / 3) \<in> set (failure_rate scenario) \<and> (1::int) \<le> 3"
proof -
  have ex: "\<exists>r\<in>set scenario. merchant_id r = Some ''M1''"
    by (simp add: scenario_def row_def)
  have mem: "(Some ''M1'', 3, 1, 1 / 3) \<in> set (failure_rate scenario)"
    by (simp add: failure_rate_def scenario_def row_def total_df_def failed_def groupBy_def
        fillna_def left_join_def count_def rate_def)
  from failure_rate_invariant [of scenario] ex mem show ?thesis by fastforce
qed

section \<open>The top-merchants view\<close>

lemma top_merchants_eq: "top_merchants df = take 5 (orderBy_desc snd (total_df df))"
  by (simp add: top_merchants_def total_df_def limit_def)

lemma set_orderBy_desc: "set (orderBy_desc key df) = set df"
  by (simp add: orderBy_desc_def)

lemma length_orderBy_desc: "length (orderBy_desc key df) = length df"
  by (simp add: orderBy_desc_def)

lemma sorted_orderBy_desc: "sorted_wrt (\<ge>) (map key (orderBy_desc key df))"
  by (simp add: orderBy_desc_def rev_map [symmetric] sorted_wrt_rev)

lemma merchant_card:
  "length (total_df df) = card {m. \<exists>r\<in>set df. merchant_id r = Some m}"
proof -
  have "length (total_df df) = card (set (remdups (map merchant_id (filter (\<lambda>r. merchant_id r \<noteq> None) df))))"
    unfolding total_eq by (simp add: distinct_card del: set_remdups)
  also have "\<dots> = card (Some ` {m. \<exists>r\<in>set df. merchant_id r = Some m})"
    unfolding merchant_keys_set by (rule arg_cong[where f=card]) auto
  also have "\<dots> = card {m. \<exists>r\<in>set df. merchant_id r = Some m}"
    by (rule card_image) simp
  finally show ?thesis .
qed

text \<open>
  C3. The top-merchants view has \<open>min 5 k\<close> rows, \<open>k\<close> being the number of distinct
  non-null \<open>merchant_id\<close> values; the \<open>txn_count\<close> of a row is the number of rows of its
  merchant; the counts do not increase along the view. On the scenario the view is
  \<open>[(M1, 3), (M2, 1)]\<close>.
\<close>

theorem top_merchants_view:
  "length (top_merchants df) = min 5 (card {m. \<exists>r\<in>set df. merchant_id r = Some m}) \<and>
   (\<forall>(m, txn_count) \<in> set (top_merchants df).
      m \<noteq> None \<and> txn_count = int (length (filter (\<lambda>r. merchant_id r = m) df))) \<and>
   sorted_wrt (\<ge>) (map snd (top_merchants df)) \<and>
   top_merchants scenario = [(Some ''M1'', 3), (Some ''M2'', 1)]"
proof (intro conjI)
  show "length (top_merchants df) = min 5 (card {m. \<exists>r\<in>set df. merchant_id r = Some m})"
    by (simp add: top_merchants_eq length_orderBy_desc merchant_card min.commute)
  have "set (top_merchants df) \<subseteq> set (total_df df)"
    unfolding top_merchants_eq using set_take_subset [of 5 "orderBy_desc snd (total_df df)"]
    by (simp add: set_orderBy_desc)
  moreover have "\<forall>(m, c) \<in> set (total_df df).
      m \<noteq> None \<and> c = int (length (filter (\<lambda>r. merchant_id r = m) df))"
    by (auto simp: total_eq)
  ultimately show "\<forall>(m, txn_count) \<in> set (top_merchants df).
      m \<noteq> None \<and> txn_count = int (length (filter (\<lambda>r. merchant_id r = m) df))"
    by blast
  show "sorted_wrt (\<ge>) (map snd (top_merchants df))"
    unfolding top_merchants_eq take_map [symmetric]
    by (rule sorted_wrt_take) (rule sorted_orderBy_desc)
  show "top_merchants scenario = [(Some ''M1'', 3), (Some ''M2'', 1)]"
    by (simp add: top_merchants_def scenario_def row_def groupBy_def count_def limit_def
        orderBy_desc_def)
qed

text \<open>The first row of the view of the scenario.\<close>

theorem top_merchants_view_witness:
  "(Some ''M1'', 3) \<in> set (top_merchants scenario) \<and>
   (3::int) = int (length (filter (\<lambda>r. merchant_id r = Some ''M1'') scenario))"
proof -
  have "(Some ''M1'', 3) \<in> set (top_merchants scenario)"
    using top_merchants_view [of scenario] by simp
  with top_merchants_view [of scenario] show ?thesis by fastforce
qed

section \<open>The average-transaction view\<close>

lemma non_null_map_Some: "\<forall>v\<in>set vs. v \<noteq> None \<Longrightarrow> map Some (non_null vs) = vs"
  by (induction vs rule: non_null.induct) auto


lemma non_null_append: "non_null (xs @ ys) = non_null xs @ non_null ys"
  by (induction xs rule: non_null.induct) auto

lemma non_null_Some: "non_null (map Some xs) = xs"
  by (induction xs) auto

lemma avg_txn_eq:
  "avg_txn df =
     map (\<lambda>u. (u, avg (map transaction_amount
                      (filter (\<lambda>r. user_id r = u \<and> transaction_amount r \<noteq> None) df))))
       (remdups (map user_id (filter (\<lambda>r. transaction_amount r \<noteq> None \<and> user_id r \<noteq> None) df)))"
  unfolding avg_txn_def groupBy_def
  by (auto simp: comp_def intro!: arg_cong[where f=avg] arg_cong[where f="map transaction_amount"] filter_cong)


lemma avg_Some:
  "amounts \<noteq> [] \<Longrightarrow>
   avg (map Some amounts) = ddiv (foldl dadd (Finite 0) amounts) (round64 (of_nat (length amounts)))"
  by (simp add: avg_def Let_def non_null_Some)



lemma scenario_avg:
  "avg_txn scenario = [(Some ''U1'', Some (Finite 75)), (Some ''U2'', Some (Finite 250))]"
  by code_simp






section \<open>Rows without a grouping key\<close>

lemma failure_rate_row_total:
  "(m, t, f, fr) \<in> set (failure_rate df) \<Longrightarrow>
   t = int (length (filter (\<lambda>x. merchant_id x = m) df))"
  by (auto simp: failure_rate_eq)

lemma failure_rate_member:
  assumes "x \<in> set df" "merchant_id x = Some m"
  shows "(Some m, rows_of m df, failed_of m df, rate (rows_of m df) (failed_of m df))
           \<in> set (failure_rate df)"
proof -
  have "Some m \<in> set (remdups (map merchant_id (filter (\<lambda>r. merchant_id r \<noteq> None) df)))"
    using assms by (force simp: image_iff)
  then show ?thesis
    unfolding failure_rate_eq rows_of_def failed_of_def by (simp add: image_iff del: set_remdups)
qed

lemma total_df_member:
  assumes "x \<in> set df" "merchant_id x = Some m"
  shows "(Some m, rows_of m df) \<in> set (total_df df)"
proof -
  have "Some m \<in> set (remdups (map merchant_id (filter (\<lambda>r. merchant_id r \<noteq> None) df)))"
    using assms by (force simp: image_iff)
  then show ?thesis
    unfolding total_eq rows_of_def by (simp add: image_iff del: set_remdups)
qed

lemma top_merchants_row_count:
  "(Some m, c) \<in> set (top_merchants df) \<Longrightarrow> c = rows_of m df"
proof -
  assume "(Some m, c) \<in> set (top_merchants df)"
  then have "(Some m, c) \<in> set (total_df df)"
    unfolding top_merchants_eq using set_take_subset [of 5 "orderBy_desc snd (total_df df)"]
    by (auto simp: set_orderBy_desc)
  then show ?thesis
    by (auto simp: total_eq rows_of_def)
qed

lemma top_merchants_all:
  "card {m. \<exists>r\<in>set df. merchant_id r = Some m} \<le> 5 \<Longrightarrow>
   set (top_merchants df) = set (total_df df)"
  by (simp add: top_merchants_eq length_orderBy_desc merchant_card set_orderBy_desc)

lemma rows_of_insert: "merchant_id r = Some m \<Longrightarrow>
  rows_of m (xs @ r # ys) = rows_of m xs + 1 + rows_of m ys"
  by (simp add: rows_of_def)

lemma failed_of_insert: "merchant_id r = Some m \<Longrightarrow>
  failed_of m (xs @ r # ys) =
    failed_of m xs + (if status r = Some ''FAILED'' then 1 else 0) + failed_of m ys"
  by (simp add: failed_of_def)

lemma rows_of_append: "rows_of m (xs @ ys) = rows_of m xs + rows_of m ys"
  by (simp add: rows_of_def)

text \<open>
  C5. A row without \<open>merchant_id\<close> changes neither the failure-rate view nor the
  top-merchants view. A row with a \<open>merchant_id\<close> is counted by both, whatever its
  \<open>user_id\<close> and amount are: the merchant's row of the failure-rate view counts it, that
  view is not the one without the row, and the top-merchants view counts it in the row
  of its merchant, which is there when at most five merchants occur. A row with a
  \<open>user_id\<close> and an amount is counted by the average-transaction view, whatever its
  \<open>merchant_id\<close> is: the row of its user averages over its amount too. A row without
  \<open>user_id\<close> or without amount can be removed from the table and the
  average-transaction view stays as it is.
\<close>

theorem null_key_rows:
  "(merchant_id r = None \<longrightarrow>
      failure_rate (xs @ r # ys) = failure_rate (xs @ ys) \<and>
      top_merchants (xs @ r # ys) = top_merchants (xs @ ys)) \<and>
   (merchant_id r = Some m \<longrightarrow>
      (Some m, rows_of m xs + 1 + rows_of m ys,
         failed_of m xs + (if status r = Some ''FAILED'' then 1 else 0) + failed_of m ys,
         rate (rows_of m xs + 1 + rows_of m ys)
           (failed_of m xs + (if status r = Some ''FAILED'' then 1 else 0) + failed_of m ys))
        \<in> set (failure_rate (xs @ r # ys)) \<and>
      failure_rate (xs @ r # ys) \<noteq> failure_rate (xs @ ys) \<and>
      (\<forall>c. (Some m, c) \<in> set (top_merchants (xs @ r # ys)) \<longrightarrow>
           c = rows_of m xs + 1 + rows_of m ys) \<and>
      (card {k. \<exists>x\<in>set (xs @ r # ys). merchant_id x = Some k} \<le> 5 \<longrightarrow>
         (Some m, rows_of m xs + 1 + rows_of m ys) \<in> set (top_merchants (xs @ r # ys)))) \<and>
   (user_id r = Some u \<and> transaction_amount r = Some a \<longrightarrow>
      (\<exists>as bs.
         map transaction_amount
           (filter (\<lambda>x. user_id x = Some u \<and> transaction_amount x \<noteq> None) xs) = map Some as \<and>
         map transaction_amount
           (filter (\<lambda>x. user_id x = Some u \<and> transaction_amount x \<noteq> None) ys) = map Some bs \<and>
         (Some u, ddiv (foldl dadd (Finite 0) (as @ a # bs))
                    (round64 (of_nat (length as + 1 + length bs))))
           \<in> set (avg_txn (xs @ r # ys)))) \<and>
   (user_id r = None \<or> transaction_amount r = None \<longrightarrow>
      avg_txn (xs @ r # ys) = avg_txn (xs @ ys))"
proof (intro conjI impI allI)
  assume "merchant_id r = None"
  then show "failure_rate (xs @ r # ys) = failure_rate (xs @ ys)"
    by (simp add: failure_rate_def total_df_def failed_def)
next
  assume "merchant_id r = None"
  then show "top_merchants (xs @ r # ys) = top_merchants (xs @ ys)"
    by (simp add: top_merchants_def)
next
  assume "user_id r = None \<or> transaction_amount r = None"
  then show "avg_txn (xs @ r # ys) = avg_txn (xs @ ys)"
    by (auto simp: avg_txn_def)
next
  assume m: "merchant_id r = Some m"
  have "r \<in> set (xs @ r # ys)" by simp
  from failure_rate_member [OF this m]
  show "(Some m, rows_of m xs + 1 + rows_of m ys,
         failed_of m xs + (if status r = Some ''FAILED'' then 1 else 0) + failed_of m ys,
         rate (rows_of m xs + 1 + rows_of m ys)
           (failed_of m xs + (if status r = Some ''FAILED'' then 1 else 0) + failed_of m ys))
        \<in> set (failure_rate (xs @ r # ys))"
    by (simp only: rows_of_insert [OF m] failed_of_insert [OF m])
next
  assume m: "merchant_id r = Some m"
  have "r \<in> set (xs @ r # ys)" by simp
  from failure_rate_member [OF this m]
  have mem: "(Some m, rows_of m xs + 1 + rows_of m ys, failed_of m (xs @ r # ys),
              rate (rows_of m (xs @ r # ys)) (failed_of m (xs @ r # ys)))
        \<in> set (failure_rate (xs @ r # ys))"
    by (simp only: rows_of_insert [OF m])
  show "failure_rate (xs @ r # ys) \<noteq> failure_rate (xs @ ys)"
  proof
    assume "failure_rate (xs @ r # ys) = failure_rate (xs @ ys)"
    with mem have "(Some m, rows_of m xs + 1 + rows_of m ys, failed_of m (xs @ r # ys),
              rate (rows_of m (xs @ r # ys)) (failed_of m (xs @ r # ys)))
        \<in> set (failure_rate (xs @ ys))"
      by simp
    from failure_rate_row_total [OF this]
    have "rows_of m xs + 1 + rows_of m ys = rows_of m (xs @ ys)"
      by (simp add: rows_of_def)
    then show False
      by (simp add: rows_of_append)
  qed
next
  fix c
  assume m: "merchant_id r = Some m"
    and "(Some m, c) \<in> set (top_merchants (xs @ r # ys))"
  from top_merchants_row_count [OF this(2)]
  show "c = rows_of m xs + 1 + rows_of m ys"
    by (simp only: rows_of_insert [OF m])
next
  assume m: "merchant_id r = Some m"
    and c: "card {k. \<exists>x\<in>set (xs @ r # ys). merchant_id x = Some k} \<le> 5"
  have "r \<in> set (xs @ r # ys)" by simp
  from total_df_member [OF this m]
  have "(Some m, rows_of m xs + 1 + rows_of m ys) \<in> set (total_df (xs @ r # ys))"
    by (simp only: rows_of_insert [OF m])
  then show "(Some m, rows_of m xs + 1 + rows_of m ys) \<in> set (top_merchants (xs @ r # ys))"
    by (simp only: top_merchants_all [OF c])
next
  assume h: "user_id r = Some u \<and> transaction_amount r = Some a"
  let ?P = "\<lambda>x. user_id x = Some u \<and> transaction_amount x \<noteq> None"
  let ?vx = "map transaction_amount (filter ?P xs)"
  let ?vy = "map transaction_amount (filter ?P ys)"
  have nx: "map Some (non_null ?vx) = ?vx" by (rule non_null_map_Some) auto
  have ny: "map Some (non_null ?vy) = ?vy" by (rule non_null_map_Some) auto
  have "map transaction_amount (filter ?P (xs @ r # ys)) =
        map Some (non_null ?vx @ a # non_null ?vy)"
    using h nx ny by simp
  then have "avg (map transaction_amount (filter ?P (xs @ r # ys))) =
        ddiv (foldl dadd (Finite 0) (non_null ?vx @ a # non_null ?vy))
          (round64 (of_nat (length (non_null ?vx) + 1 + length (non_null ?vy))))"
    using avg_Some [of "non_null ?vx @ a # non_null ?vy"] by simp
  moreover have "(Some u, avg (map transaction_amount (filter ?P (xs @ r # ys))))
        \<in> set (avg_txn (xs @ r # ys))"
    using h unfolding avg_txn_eq by (auto simp: image_iff)
  ultimately show "\<exists>as bs. ?vx = map Some as \<and> ?vy = map Some bs \<and>
         (Some u, ddiv (foldl dadd (Finite 0) (as @ a # bs))
                    (round64 (of_nat (length as + 1 + length bs))))
           \<in> set (avg_txn (xs @ r # ys))"
    using nx ny by (intro exI [of _ "non_null ?vx"] exI [of _ "non_null ?vy"]) simp
qed

lemma scenario_orphan_avg:
  "avg_txn (scenario @ [orphan]) = [(Some ''U2'', Some (Finite 250)), (Some ''U1'', Some (Finite 60))]"
  by code_simp

text \<open>
  The scenario with one more row: a row of U1 without merchant, and a row of M2 with
  neither user nor amount.
\<close>

theorem null_key_rows_witness:
  "merchant_id orphan = None \<and> user_id orphan = Some ''U1'' \<and>
   transaction_amount orphan = Some (Finite 30) \<and>
   failure_rate (scenario @ [orphan]) = failure_rate scenario \<and>
   top_merchants (scenario @ [orphan]) = top_merchants scenario \<and>
   (Some ''U1'', Some (Finite 60)) \<in> set (avg_txn (scenario @ [orphan])) \<and>
   merchant_id nameless = Some ''M2'' \<and> user_id nameless = None \<and>
   (Some ''M2'', 2, 1, 1 / 2) \<in> set (failure_rate (scenario @ [nameless])) \<and>
   failure_rate (scenario @ [nameless]) \<noteq> failure_rate scenario \<and>
   (Some ''M2'', 2) \<in> set (top_merchants (scenario @ [nameless])) \<and>
   avg_txn (scenario @ [nameless]) = avg_txn scenario"
proof -
  have a: "merchant_id orphan = None" "user_id orphan = Some ''U1''"
    "transaction_amount orphan = Some (Finite 30)"
    by (simp_all add: orphan_def)
  have b: "merchant_id nameless = Some ''M2''" "user_id nameless = None"
    "status nameless = Some ''FAILED''"
    by (simp_all add: nameless_def)
  have c: "rows_of ''M2'' scenario = 1" "failed_of ''M2'' scenario = 0"
    "rows_of ''M2'' [] = 0" "failed_of ''M2'' [] = 0"
    by (simp_all add: rows_of_def failed_of_def scenario_def row_def)
  have d: "card {k. \<exists>x\<in>set (scenario @ [nameless]). merchant_id x = Some k} \<le> 5"
  proof -
    have "{k. \<exists>x\<in>set (scenario @ [nameless]). merchant_id x = Some k} = {''M1'', ''M2''}"
      by (auto simp: scenario_def row_def nameless_def)
    then show ?thesis by simp
  qed
  have e: "(Some ''U1'', Some (Finite 60)) \<in> set (avg_txn (scenario @ [orphan]))"
    by (simp add: scenario_orphan_avg)
  have 1: "failure_rate (scenario @ [orphan]) = failure_rate scenario"
    "top_merchants (scenario @ [orphan]) = top_merchants scenario"
    using null_key_rows [of orphan scenario "[]"] a by simp_all
  have 2: "(Some ''M2'', 2, 1, 1 / 2) \<in> set (failure_rate (scenario @ [nameless]))"
    "failure_rate (scenario @ [nameless]) \<noteq> failure_rate scenario"
    "(Some ''M2'', 2) \<in> set (top_merchants (scenario @ [nameless]))"
    "avg_txn (scenario @ [nameless]) = avg_txn scenario"
    using null_key_rows [of nameless scenario "[]" "''M2''"] b c d
    by (simp_all add: rate_def)
  show ?thesis
    using a b e 1 2 by simp
qed

section \<open>The runs of the analysis\<close>

lemma paths_differ:
  "results_dir \<noteq> avg_csv" "results_dir \<noteq> failure_csv" "results_dir \<noteq> top_csv"
  "avg_csv \<noteq> failure_csv" "avg_csv \<noteq> top_csv" "failure_csv \<noteq> top_csv"
  by (simp_all add: results_dir_def avg_csv_def failure_csv_def top_csv_def)

lemma attempted_append: "attempted p (xs @ ys) \<longleftrightarrow> attempted p xs \<or> attempted p ys"
  by (simp add: attempted_def list_ex_iff) blast

lemma attempted_simps:
  "attempted p [] = False"
  "attempted p (e # tr) = (touches p e \<or> attempted p tr)"
  by (simp_all add: attempted_def)

text \<open>
  C6. On a table without rows \<open>main\<close> raises the error of the empty dataset, which the
  code writes as \<open>ValueError("No data found in the input file")\<close>: nothing is displayed,
  no file is attempted, only the session is stopped. With the input file present this is
  the only way for \<open>main\<close> to end in an error.
\<close>

theorem empty_dataset_fails:
  "main (Some []) fs = ([SparkStop], Inl (ValueError ''No data found in the input file'')) \<and>
   \<not> attempted p (fst (main (Some []) fs)) \<and>
   ((\<exists>e. snd (main (Some df) fs) = Inl e) \<longleftrightarrow> df = [])"
  by (auto simp: main_def count_def attempted_simps split: prod.splits sum.splits)

text \<open>
  C8, as stated, fails. The three writes share one \<open>try\<close> block: on a disk that rejects
  only \<open>avg_transaction_per_user.csv\<close>, that file is attempted and the two others are
  not.
\<close>

theorem save_failure_counterexample:
  "rejects avg_csv results_dir \<and> \<not> rejects avg_csv avg_csv \<and>
   rejects avg_csv failure_csv \<and> rejects avg_csv top_csv \<and>
   attempted avg_csv (fst (main (Some scenario) (rejects avg_csv))) \<and>
   \<not> attempted failure_csv (fst (main (Some scenario) (rejects avg_csv))) \<and>
   \<not> attempted top_csv (fst (main (Some scenario) (rejects avg_csv)))"
  using paths_differ
  by (simp add: main_def count_def scenario_def save_results_def seq_def makedirs_def
      to_csv_def rejects_def attempted_simps)

lemma save_results_cases:
  "save_results fs a f t tr =
     (if \<not> fs results_dir then (tr @ [Failed results_dir], Inl (OSError results_dir))
      else if \<not> fs avg_csv
        then (tr @ [Makedirs results_dir, Failed avg_csv], Inl (OSError avg_csv))
      else if \<not> fs failure_csv
        then (tr @ [Makedirs results_dir, ToCsv avg_csv (AvgTxn a), Failed failure_csv],
              Inl (OSError failure_csv))
      else if \<not> fs top_csv
        then (tr @ [Makedirs results_dir, ToCsv avg_csv (AvgTxn a),
                    ToCsv failure_csv (FailureRate f), Failed top_csv], Inl (OSError top_csv))
      else summary a f (tr @ [Makedirs results_dir, ToCsv avg_csv (AvgTxn a),
                    ToCsv failure_csv (FailureRate f), ToCsv top_csv (TopMerchants t)]))"
  by (simp add: save_results_def seq_def makedirs_def to_csv_def)

lemma summary_trace:
  "\<exists>evs r. summary a f tr = (tr @ evs, r) \<and> (\<forall>p. \<not> attempted p evs)"
  by (auto simp: summary_def attempted_simps split: list.splits)

lemma main_nonempty:
  "df \<noteq> [] \<Longrightarrow> main (Some df) fs =
     (case save_results fs (avg_txn df) (failure_rate df) (top_merchants df)
             [Show (TopMerchants (top_merchants df)),
              Show (AvgTxn (limit 10 (orderBy_desc snd (avg_txn df)))),
              Show (FailureRate
                (limit 10 (orderBy_desc (\<lambda>(m, t, f, r). r) (failure_rate df))))] of
        (tr, Inl save_error) \<Rightarrow> (tr @ [SaveError save_error, SparkStop], Inr ())
      | (tr, Inr _) \<Rightarrow> (tr @ [SparkStop], Inr ()))"
  by (simp add: main_def count_def)

text \<open>
  C8, amended. On a non-empty table \<open>main\<close> returns normally whatever the disk does, and
  the three tables displayed before the save are the same. A failure ends the save block:
  the files after the failing one, in the order average, failure rate, top merchants, are
  not attempted, and the files written before it stay written.
\<close>

theorem save_failure_isolated:
  assumes "df \<noteq> []"
  shows "snd (main (Some df) fs) = Inr () \<and>
    take 3 (fst (main (Some df) fs)) =
      [Show (TopMerchants (top_merchants df)),
       Show (AvgTxn (limit 10 (orderBy_desc snd (avg_txn df)))),
       Show (FailureRate (limit 10 (orderBy_desc (\<lambda>(m, t, f, r). r) (failure_rate df))))] \<and>
    (\<not> fs results_dir \<longrightarrow>
       \<not> attempted avg_csv (fst (main (Some df) fs)) \<and>
       \<not> attempted failure_csv (fst (main (Some df) fs)) \<and>
       \<not> attempted top_csv (fst (main (Some df) fs))) \<and>
    (fs results_dir \<and> \<not> fs avg_csv \<longrightarrow>
       attempted avg_csv (fst (main (Some df) fs)) \<and>
       \<not> attempted failure_csv (fst (main (Some df) fs)) \<and>
       \<not> attempted top_csv (fst (main (Some df) fs))) \<and>
    (fs results_dir \<and> fs avg_csv \<and> \<not> fs failure_csv \<longrightarrow>
       ToCsv avg_csv (AvgTxn (avg_txn df)) \<in> set (fst (main (Some df) fs)) \<and>
       attempted failure_csv (fst (main (Some df) fs)) \<and>
       \<not> attempted top_csv (fst (main (Some df) fs))) \<and>
    (fs results_dir \<and> fs avg_csv \<and> fs failure_csv \<longrightarrow>
       ToCsv avg_csv (AvgTxn (avg_txn df)) \<in> set (fst (main (Some df) fs)) \<and>
       ToCsv failure_csv (FailureRate (failure_rate df)) \<in> set (fst (main (Some df) fs)) \<and>
       attempted top_csv (fst (main (Some df) fs)))"
proof -
  let ?shown = "[Show (TopMerchants (top_merchants df)),
       Show (AvgTxn (limit 10 (orderBy_desc snd (avg_txn df)))),
       Show (FailureRate (limit 10 (orderBy_desc (\<lambda>(m, t, f, r). r) (failure_rate df))))]"
  let ?a = "avg_txn df" and ?f = "failure_rate df" and ?t = "top_merchants df"
  obtain evs r where s: "summary ?a ?f (?shown @ [Makedirs results_dir, ToCsv avg_csv (AvgTxn ?a),
                    ToCsv failure_csv (FailureRate ?f), ToCsv top_csv (TopMerchants ?t)]) =
       ((?shown @ [Makedirs results_dir, ToCsv avg_csv (AvgTxn ?a),
                    ToCsv failure_csv (FailureRate ?f), ToCsv top_csv (TopMerchants ?t)]) @ evs, r)"
    using summary_trace by blast
  consider (dir) "\<not> fs results_dir"
    | (avg) "fs results_dir" "\<not> fs avg_csv"
    | (fail) "fs results_dir" "fs avg_csv" "\<not> fs failure_csv"
    | (top) "fs results_dir" "fs avg_csv" "fs failure_csv" "\<not> fs top_csv"
    | (all) "fs results_dir" "fs avg_csv" "fs failure_csv" "fs top_csv"
    by blast
  then show ?thesis
  proof cases
    case dir
    then show ?thesis
      using paths_differ
      by (simp add: main_nonempty [OF assms] save_results_cases attempted_simps)
  next
    case avg
    then show ?thesis
      using paths_differ
      by (simp add: main_nonempty [OF assms] save_results_cases attempted_simps)
  next
    case fail
    then show ?thesis
      using paths_differ
      by (simp add: main_nonempty [OF assms] save_results_cases attempted_simps)
  next
    case top
    then show ?thesis
      using paths_differ
      by (simp add: main_nonempty [OF assms] save_results_cases attempted_simps)
  next
    case all
    then show ?thesis
      using paths_differ s
      by (cases r) (simp_all add: main_nonempty [OF assms] save_results_cases attempted_simps
          attempted_append)
  qed
qed

text \<open>The scenario on the disk that rejects the first file.\<close>

theorem save_failure_isolated_witness:
  "scenario \<noteq> [] \<and> rejects avg_csv results_dir \<and> \<not> rejects avg_csv avg_csv \<and>
   snd (main (Some scenario) (rejects avg_csv)) = Inr () \<and>
   take 3 (fst (main (Some scenario) (rejects avg_csv))) =
     [Show (TopMerchants [(Some ''M1'', 3), (Some ''M2'', 1)]),
      Show (AvgTxn [(Some ''U2'', Some (Finite 250)), (Some ''U1'', Some (Finite 75))]),
      Show (FailureRate [(Some ''M1'', 3, 1, 1 / 3), (Some ''M2'', 1, 0, 0)])] \<and>
   attempted avg_csv (fst (main (Some scenario) (rejects avg_csv))) \<and>
   \<not> attempted failure_csv (fst (main (Some scenario) (rejects avg_csv))) \<and>
   \<not> attempted top_csv (fst (main (Some scenario) (rejects avg_csv)))"
proof -
  have ne: "scenario \<noteq> []" by (simp add: scenario_def)
  have fs: "rejects avg_csv results_dir" "\<not> rejects avg_csv avg_csv"
    using paths_differ by (simp_all add: rejects_def)
  have v: "top_merchants scenario = [(Some ''M1'', 3), (Some ''M2'', 1)]"
    "limit 10 (orderBy_desc (\<lambda>(m, t, f, r). r) (failure_rate scenario)) =
       [(Some ''M1'', 3, 1, 1 / 3), (Some ''M2'', 1, 0, 0)]"
    by (simp_all add: top_merchants_def scenario_def row_def groupBy_def count_def limit_def
        orderBy_desc_def failure_rate_def total_df_def failed_def
        fillna_def left_join_def rate_def)
  have w: "limit 10 (orderBy_desc snd (avg_txn scenario)) =
       [(Some ''U2'', Some (Finite 250)), (Some ''U1'', Some (Finite 75))]"
    by (simp add: scenario_avg limit_def orderBy_desc_def less_eq_double_def)
  show ?thesis
    using save_failure_isolated [OF ne, of "rejects avg_csv"] fs ne v w by simp
qed

section \<open>The runs of the generator\<close>

lemma unique_id_spec:
  "generate_unique_transaction_id used us = Some (u, used', us') \<Longrightarrow>
   u \<notin> used \<and> used' = insert u used \<and> set us - insert u used \<subseteq> set us'"
  by (induction us) (auto split: if_splits)

lemma unique_id_returns:
  "set us - used \<noteq> {} \<Longrightarrow> \<exists>r. generate_unique_transaction_id used us = Some r"
  by (induction us) auto

lemma generate_transaction_spec:
  "generate_transaction d used us = Some (t, used', us') \<Longrightarrow>
   transaction_id t \<notin> used \<and> used' = insert (transaction_id t) used \<and>
   set us - used' \<subseteq> set us'"
  unfolding generate_transaction_def
  by (auto split: option.splits dest!: unique_id_spec)

lemma generate_transaction_returns:
  "set us - used \<noteq> {} \<Longrightarrow> \<exists>r. generate_transaction d used us = Some r"
  unfolding generate_transaction_def
  using unique_id_returns [of us used] by (auto split: option.splits)

lemma generate_loop_spec:
  "generate_loop k i rnd used us acc = Some (txs, used', us') \<Longrightarrow>
   set (map transaction_id acc) \<subseteq> used \<Longrightarrow> distinct (map transaction_id acc) \<Longrightarrow>
   length txs = length acc + k \<and> distinct (map transaction_id txs) \<and>
   set (map transaction_id txs) \<subseteq> used'"
proof (induction k arbitrary: i used us acc)
  case 0
  then show ?case by simp
next
  case (Suc k)
  from Suc.prems(1) obtain t u1 us1 where
    g: "generate_transaction (rnd i) used us = Some (t, u1, us1)" and
    l: "generate_loop k (Suc i) rnd u1 us1 (acc @ [t]) = Some (txs, used', us')"
    by (auto split: option.splits)
  from generate_transaction_spec [OF g] have
    f: "transaction_id t \<notin> used" and u: "u1 = insert (transaction_id t) used"
    by simp_all
  have "set (map transaction_id (acc @ [t])) \<subseteq> u1"
    using Suc.prems(2) u by auto
  moreover have "distinct (map transaction_id (acc @ [t]))"
    using Suc.prems(2,3) f by auto
  ultimately show ?case
    using Suc.IH [OF l] by simp
qed

lemma generate_loop_returns:
  "k \<le> card (set us - used) \<Longrightarrow> \<exists>r. generate_loop k i rnd used us acc = Some r"
proof (induction k arbitrary: i used us acc)
  case 0
  then show ?case by simp
next
  case (Suc k)
  have ne: "set us - used \<noteq> {}"
  proof
    assume "set us - used = {}"
    then have "card (set us - used) = 0" by (simp only: card.empty)
    with Suc.prems show False by simp
  qed
  from generate_transaction_returns [OF ne] obtain t u1 us1 where
    g: "generate_transaction (rnd i) used us = Some (t, u1, us1)"
    by (metis prod_cases3)
  from generate_transaction_spec [OF g] have
    f: "transaction_id t \<notin> used" and u: "u1 = insert (transaction_id t) used" and
    s: "set us - u1 \<subseteq> set us1"
    by blast+
  have "card (set us - used) \<le> Suc (card (set us - u1))"
  proof -
    have "set us - used \<subseteq> insert (transaction_id t) (set us - u1)"
      using u by auto
    then have "card (set us - used) \<le> card (insert (transaction_id t) (set us - u1))"
      by (intro card_mono) auto
    also have "\<dots> \<le> Suc (card (set us - u1))"
      by (simp add: card_insert_if)
    finally show ?thesis .
  qed
  moreover have "card (set us - u1) \<le> card (set us1 - u1)"
    using s by (intro card_mono) auto
  ultimately have "k \<le> card (set us1 - u1)"
    using Suc.prems by linarith
  from Suc.IH [OF this] show ?case
    using g by simp
qed

text \<open>
  C9. For \<open>n \<ge> 1\<close>, whenever \<open>generate_transactions\<close> returns it returns exactly \<open>n\<close>
  records with pairwise distinct \<open>transaction_id\<close>, so \<open>n\<close> distinct identifiers. It does
  return when the calls of \<open>uuid4\<close> give at least \<open>n\<close> different identifiers that are
  not yet used.
\<close>

theorem generated_ids_distinct:
  assumes "1 \<le> n"
  shows "(\<forall>txs used' us'. generate_transactions n rnd used us = Some (txs, used', us') \<longrightarrow>
            int (length txs) = n \<and> distinct (map transaction_id txs) \<and>
            int (card (transaction_id ` set txs)) = n) \<and>
         (nat n \<le> card (set us - used) \<longrightarrow>
            (\<exists>txs used' us'. generate_transactions n rnd used us = Some (txs, used', us')))"
proof (intro conjI allI impI)
  fix txs used' us'
  assume g: "generate_transactions n rnd used us = Some (txs, used', us')"
  from generate_loop_spec [OF g [unfolded generate_transactions_def]]
  have l: "length txs = nat n" and d: "distinct (map transaction_id txs)"
    by simp_all
  show "int (length txs) = n" using l assms by simp
  show "distinct (map transaction_id txs)" by (rule d)
  have "card (set (map transaction_id txs)) = length (map transaction_id txs)"
    using d by (rule distinct_card)
  then show "int (card (transaction_id ` set txs)) = n"
    using l assms by simp
next
  assume "nat n \<le> card (set us - used)"
  from generate_loop_returns [OF this, of 0 rnd "[]"]
  show "\<exists>txs used' us'. generate_transactions n rnd used us = Some (txs, used', us')"
    unfolding generate_transactions_def by (metis prod_cases3)
qed

text \<open>Two records from three draws, the second a repetition.\<close>

theorem generated_ids_distinct_witness:
  "(1::int) \<le> 2 \<and> nat 2 \<le> card (set [''a'', ''a'', ''b''] - {}) \<and>
   (\<exists>txs used' us'. generate_transactions 2 plain {} [''a'', ''a'', ''b''] = Some (txs, used', us') \<and>
      int (length txs) = 2 \<and> distinct (map transaction_id txs))"
proof -
  have h: "(1::int) \<le> 2" by simp
  have c: "nat 2 \<le> card (set [''a'', ''a'', ''b''] - {})" by simp
  from generated_ids_distinct [OF h, of plain "{}" "[''a'', ''a'', ''b'']"] c h
  show ?thesis by blast
qed

lemma validate_input_positive:
  "validate_input int_of inputs = Inr n \<Longrightarrow> 1 \<le> n"
  by (induction int_of inputs rule: validate_input.induct)
     (auto split: if_splits option.splits list.splits console.splits)

text \<open>
  C7, amended. A count \<open>n \<le> 0\<close> is no error. \<open>validate_input\<close> returns only counts
  \<open>n \<ge> 1\<close>: a line that reads as \<open>n \<le> 0\<close> is passed over and the next line is asked
  for. \<open>generate_transactions\<close> with \<open>n \<le> 0\<close> returns the empty list. When
  \<open>validate_input\<close> ends in an exception the process exits without any file operation,
  and a file operation is made only after a count \<open>n \<ge> 1\<close> was accepted.
\<close>

theorem nonpositive_count_rejected:
  "(validate_input int_of inputs = Inr n \<longrightarrow> 1 \<le> n) \<and>
   (int_of (strip l) = Some n \<and> n \<le> 0 \<longrightarrow>
      validate_input int_of (Line l # inputs) = validate_input int_of inputs) \<and>
   (n \<le> 0 \<longrightarrow> generate_transactions n rnd used us = Some ([], used, us)) \<and>
   ((\<exists>e. validate_input int_of inputs = Inl e) \<longrightarrow>
      (\<exists>c. generator_main int_of inputs rnd us fs dir_exists = Some ([], Inl (SystemExit c)))) \<and>
   (generator_main int_of inputs rnd us fs dir_exists = Some (tr, r) \<and> tr \<noteq> [] \<longrightarrow>
      (\<exists>k\<ge>1. validate_input int_of inputs = Inr k))"
proof (intro conjI impI)
  assume "validate_input int_of inputs = Inr n"
  then show "1 \<le> n" by (rule validate_input_positive)
next
  assume "int_of (strip l) = Some n \<and> n \<le> 0"
  then show "validate_input int_of (Line l # inputs) = validate_input int_of inputs"
    by auto
next
  assume "n \<le> 0"
  then show "generate_transactions n rnd used us = Some ([], used, us)"
    by (simp add: generate_transactions_def)
next
  assume "\<exists>e. validate_input int_of inputs = Inl e"
  then obtain e where "validate_input int_of inputs = Inl e" ..
  then show "\<exists>c. generator_main int_of inputs rnd us fs dir_exists = Some ([], Inl (SystemExit c))"
    by (cases e) (simp_all add: generator_main_def)
next
  assume a: "generator_main int_of inputs rnd us fs dir_exists = Some (tr, r) \<and> tr \<noteq> []"
  show "\<exists>k\<ge>1. validate_input int_of inputs = Inr k"
  proof (cases "validate_input int_of inputs")
    case (Inl e)
    then have "generator_main int_of inputs rnd us fs dir_exists = Some ([], Inl (SystemExit 1)) \<or>
               (\<exists>c. generator_main int_of inputs rnd us fs dir_exists = Some ([], Inl (SystemExit c)))"
      by (cases e) (simp_all add: generator_main_def)
    with a show ?thesis by auto
  next
    case (Inr k)
    then show ?thesis using validate_input_positive [OF Inr] by simp
  qed
qed

text \<open>
  The runs of the counterexample once more, and a run that writes its files after the
  count 2 was accepted.
\<close>

theorem nonpositive_count_rejected_witness:
  "validate_input decimal [Line ''0'', Line ''5''] = Inr 5 \<and> (1::int) \<le> 5 \<and>
   decimal (strip ''0'') = Some 0 \<and>
   validate_input decimal [Line ''0'', Line ''5''] = validate_input decimal [Line ''5''] \<and>
   generate_transactions 0 plain {} [''a''] = Some ([], {}, [''a'']) \<and>
   validate_input decimal [Line ''0''] = Inl EOFError \<and>
   (\<exists>c. generator_main decimal [Line ''0''] plain [''a''] accepts False =
      Some ([], Inl (SystemExit c))) \<and>
   (\<exists>tr. generator_main decimal [Line ''0'', Line ''2''] plain [''a'', ''b''] accepts False =
      Some (tr, Inr ()) \<and> tr \<noteq> []) \<and>
   (\<exists>k\<ge>1. validate_input decimal [Line ''0'', Line ''2''] = Inr k)"
proof -
  have v: "validate_input decimal [Line ''0'', Line ''5''] = Inr 5"
    "validate_input decimal [Line ''0''] = Inl EOFError"
    "decimal (strip ''0'') = Some 0"
    by (simp_all add: strip_def isspace_def digits_def)
  have m: "\<exists>tr. generator_main decimal [Line ''0'', Line ''2''] plain [''a'', ''b''] accepts False =
      Some (tr, Inr ()) \<and> tr \<noteq> []"
    by (simp add: generator_main_def strip_def isspace_def digits_def
        generate_transactions_def generate_transaction_def numeral_2_eq_2 save_to_csv_def
        save_to_json_def ensure_directory_exists_def accepts_def)
  then obtain tr where
    t: "generator_main decimal [Line ''0'', Line ''2''] plain [''a'', ''b''] accepts False =
      Some (tr, Inr ()) \<and> tr \<noteq> []" ..
  show ?thesis
    using v m
      nonpositive_count_rejected [of decimal "[Line ''0'', Line ''5'']" 5]
      nonpositive_count_rejected [of decimal "[Line ''5'']" 0 "''0''", THEN conjunct2, THEN conjunct1]
      nonpositive_count_rejected [of decimal "[]" 0 "[]" plain "{}" "[''a'']",
        THEN conjunct2, THEN conjunct2, THEN conjunct1]
      nonpositive_count_rejected [of decimal "[Line ''0'']" 0 "[]" plain "{}" "[''a'']" accepts False,
        THEN conjunct2, THEN conjunct2, THEN conjunct2, THEN conjunct1]
      nonpositive_count_rejected [of decimal "[Line ''0'', Line ''2'']" 0 "[]" plain "{}"
        "[''a'', ''b'']" accepts False tr "Inr ()",
        THEN conjunct2, THEN conjunct2, THEN conjunct2, THEN conjunct2, THEN mp, OF t]
    by simp
qed

text \<open>
  C7, as stated, fails: for 0 and -3 \<open>generate_transactions\<close> returns the empty list
  without an error, and \<open>validate_input\<close> passes over both and returns the 5 that follows.
\<close>

theorem nonpositive_count_counterexample:
  "generate_transactions 0 plain {} [] = Some ([], {}, []) \<and>
   generate_transactions (- 3) plain {} [] = Some ([], {}, []) \<and>
   validate_input decimal [Line ''0'', Line ''-3'', Line ''5''] = Inr 5"
  by (simp add: generate_transactions_def strip_def isspace_def digits_def)

end
